theory Spec2Isabelle
  imports Main "HOL-Library.Word"
begin

section \<open>Errors\<close>

text \<open>
  A Go \<open>error\<close> value. \<open>Wrapf msg e\<close> is \<open>fmt.Errorf(msg + ": %w", e)\<close>;
  \<open>ErrNotExist\<close> is \<open>os.ErrNotExist\<close>; \<open>Errno\<close> is any other error of the
  operating system or of a library.
\<close>

datatype error = ErrNotExist | Errno string | Wrapf string error

text \<open>\<open>errors.Is(err, os.ErrNotExist)\<close>: looks through the chain of wrapped errors.\<close>

fun errors_Is_NotExist :: "error \<Rightarrow> bool" where
  "errors_Is_NotExist ErrNotExist = True"
| "errors_Is_NotExist (Errno m) = False"
| "errors_Is_NotExist (Wrapf m e) = errors_Is_NotExist e"

section \<open>Data model\<close>

record VaultConfig =
  Path :: string
  Ts :: "64 word"
  Open :: bool

text \<open>A Go map is \<open>nil\<close> (\<open>None\<close>) or a map (\<open>Some m\<close>).\<close>

record ObsidianConfig =
  Vaults :: "(string \<rightharpoonup> VaultConfig) option"
  OpenSchemes :: "(string \<rightharpoonup> bool) option"

section \<open>The environment of one run\<close>

text \<open>
  What the program takes from outside itself: the user configuration directory (the
  variable \<open>UserConfigDirectory\<close> of the source), \<open>filepath.Abs\<close>, the two functions
  of \<open>encoding/json\<close>, the random sources, the embedded templates, the order in which
  a \<open>range\<close> over a map visits its entries, and which calls of the operating system
  fail. A failing \<open>os.MkdirAll\<close> leaves the directories it had made before it failed.
  A failing \<open>os.WriteFile\<close> either could not open the file (\<open>None\<close>: the file
  is as it was) or stopped after \<open>n\<close> bytes (\<open>Some n\<close>). A read of random bytes
  returns the bytes it delivered and its error, as \<open>Read\<close> returns \<open>(n, err)\<close>.
  \<open>now\<close> is the time of the run; no function of the program reads it.
\<close>

record env =
  UserConfigDirectory :: "error + string"
  Abs :: "string \<Rightarrow> error + string"
  mkdir_fault :: "string \<Rightarrow> (error \<times> string set) option"
  read_fault :: "string \<Rightarrow> error option"
  write_fault :: "string \<Rightarrow> (error \<times> nat option) option"
  json_Unmarshal :: "string \<Rightarrow> error + ObsidianConfig"
  json_MarshalIndent :: "ObsidianConfig \<Rightarrow> error + string"
  rand_Read :: "8 word list \<times> error option"
  open_urandom :: "error option"
  file_Read :: "8 word list \<times> error option"
  templatesFS :: "string \<Rightarrow> error + string"
  range_order :: "(string \<times> string) list \<Rightarrow> (string \<times> string) list"
  now :: "64 word"

section \<open>The file system\<close>

record fs =
  files :: "string \<rightharpoonup> string"
  dirs :: "string set"

definition Join :: "string \<Rightarrow> string \<Rightarrow> string" where
  "Join a b = a @ ''/'' @ b"

text \<open>\<open>filepath.Dir\<close> on a path without a trailing separator: all but the last element.\<close>

definition Dir :: "string \<Rightarrow> string" where
  "Dir p =
     (if CHR ''/'' \<notin> set p then ''.''
      else let d = rev (tl (dropWhile (\<lambda>c. c \<noteq> CHR ''/'') (rev p)))
           in if d = [] then ''/'' else d)"

text \<open>The directories above \<open>p\<close>: its prefixes that end before a separator.\<close>

definition parents :: "string \<Rightarrow> string list" where
  "parents p = [take i p. i \<leftarrow> [1..<length p], p ! i = CHR ''/'']"

definition os_MkdirAll :: "env \<Rightarrow> string \<Rightarrow> fs \<Rightarrow> error option \<times> fs" where
  "os_MkdirAll E p s =
     (case mkdir_fault E p of
        Some (e, made) \<Rightarrow> (Some e, s\<lparr>dirs := dirs s \<union> made\<rparr>)
      | None \<Rightarrow> (None, s\<lparr>dirs := dirs s \<union> set (parents p) \<union> {p}\<rparr>))"

definition os_ReadFile :: "env \<Rightarrow> string \<Rightarrow> fs \<Rightarrow> error + string" where
  "os_ReadFile E p s =
     (case read_fault E p of
        Some e \<Rightarrow> Inl e
      | None \<Rightarrow>
          (case files s p of
             None \<Rightarrow> Inl (Wrapf (''open '' @ p) ErrNotExist)
           | Some d \<Rightarrow> Inr d))"

definition os_WriteFile :: "env \<Rightarrow> string \<Rightarrow> string \<Rightarrow> fs \<Rightarrow> error option \<times> fs" where
  "os_WriteFile E p d s =
     (case write_fault E p of
        None \<Rightarrow> (None, s\<lparr>files := (files s)(p \<mapsto> d)\<rparr>)
      | Some (e, None) \<Rightarrow> (Some e, s)
      | Some (e, Some n) \<Rightarrow> (Some e, s\<lparr>files := (files s)(p \<mapsto> take n d)\<rparr>))"

section \<open>The global registry: \<open>updateGlobalConfig\<close>\<close>

definition default_OpenSchemes :: "string \<rightharpoonup> bool" where
  "default_OpenSchemes = [''vscode'' \<mapsto> True, ''chrome-extension'' \<mapsto> True]"

definition new_VaultConfig :: "string \<Rightarrow> VaultConfig" where
  "new_VaultConfig vaultPath = \<lparr>Path = vaultPath, Ts = 1757173820641, Open = True\<rparr>"

definition obsidianConfigPath :: "string \<Rightarrow> string" where
  "obsidianConfigPath configDir = Join (Join configDir ''obsidian'') ''obsidian.json''"

text \<open>
  The part of \<open>updateGlobalConfig\<close> after the configuration has been read: the two
  \<open>nil\<close> checks, the insertion, \<open>json.MarshalIndent\<close> and \<open>os.WriteFile\<close>.
\<close>

definition store_config ::
  "env \<Rightarrow> string \<Rightarrow> string \<Rightarrow> string \<Rightarrow> ObsidianConfig \<Rightarrow> fs \<Rightarrow> error option \<times> fs" where
  "store_config E p vaultPath vaultID config s =
     (let vaults = (case Vaults config of None \<Rightarrow> Map.empty | Some m \<Rightarrow> m);
          schemes = (case OpenSchemes config of None \<Rightarrow> default_OpenSchemes | Some m \<Rightarrow> m);
          config' = \<lparr>Vaults = Some (vaults(vaultID \<mapsto> new_VaultConfig vaultPath)),
                     OpenSchemes = Some schemes\<rparr>
      in case json_MarshalIndent E config' of
           Inl e \<Rightarrow> (Some (Wrapf ''failed to marshal config'' e), s)
         | Inr data \<Rightarrow>
             (case os_WriteFile E p data s of
                (Some e, s') \<Rightarrow> (Some (Wrapf ''failed to write config file'' e), s')
              | (None, s') \<Rightarrow> (None, s')))"

definition updateGlobalConfig :: "env \<Rightarrow> string \<Rightarrow> string \<Rightarrow> fs \<Rightarrow> error option \<times> fs" where
  "updateGlobalConfig E vaultPath vaultID s =
     (case UserConfigDirectory E of
        Inl e \<Rightarrow> (Some (Wrapf ''failed to get user config directory'' e), s)
      | Inr configDir \<Rightarrow>
          (let p = obsidianConfigPath configDir in
           case os_MkdirAll E (Dir p) s of
             (Some e, s1) \<Rightarrow> (Some (Wrapf ''failed to create obsidian config directory'' e), s1)
           | (None, s1) \<Rightarrow>
               (case os_ReadFile E p s1 of
                  Inr data \<Rightarrow>
                    (case json_Unmarshal E data of
                       Inl e \<Rightarrow> (Some (Wrapf ''failed to parse existing config'' e), s1)
                     | Inr config \<Rightarrow> store_config E p vaultPath vaultID config s1)
                | Inl e \<Rightarrow>
                    if \<not> errors_Is_NotExist e
                    then (Some (Wrapf ''failed to read config file'' e), s1)
                    else store_config E p vaultPath vaultID
                           \<lparr>Vaults = None, OpenSchemes = None\<rparr> s1)))"

text \<open>The names the specification gives to the errors of \<open>updateGlobalConfig\<close>.\<close>

definition RegistryCorrupt :: "error \<Rightarrow> error" where
  "RegistryCorrupt e = Wrapf ''failed to parse existing config'' e"

text \<open>Reading the registry back, as \<open>updateGlobalConfig\<close> reads it, and looking a vault up.\<close>

definition read_registry :: "env \<Rightarrow> string \<Rightarrow> fs \<Rightarrow> error + ObsidianConfig" where
  "read_registry E configDir s =
     (case os_ReadFile E (obsidianConfigPath configDir) s of
        Inl e \<Rightarrow> Inl e
      | Inr data \<Rightarrow> json_Unmarshal E data)"

definition lookup_vault :: "ObsidianConfig \<Rightarrow> string \<Rightarrow> VaultConfig option" where
  "lookup_vault config vaultID = (case Vaults config of None \<Rightarrow> None | Some m \<Rightarrow> m vaultID)"

section \<open>The identifier: \<open>generateVaultID\<close>\<close>

text \<open>\<open>fmt.Sprintf("%x", bytes)\<close> on a byte slice: two lowercase digits for each byte.\<close>

definition ldigits :: string where
  "ldigits = ''0123456789abcdef''"

definition hex_byte :: "8 word \<Rightarrow> string" where
  "hex_byte b = [ldigits ! (unat b div 16), ldigits ! (unat b mod 16)]"

definition Sprintf_x :: "8 word list \<Rightarrow> string" where
  "Sprintf_x bs = concat (map hex_byte bs)"

text \<open>
  \<open>bytes := make([]byte, 8)\<close> after a read that delivered some bytes: they are at the
  front, the rest is still zero.
\<close>

definition filled :: "8 word list \<Rightarrow> 8 word list" where
  "filled delivered = take 8 (delivered @ replicate 8 0)"

text \<open>The variant that reads \<open>crypto/rand\<close>.\<close>

definition generateVaultID :: "env \<Rightarrow> error + string" where
  "generateVaultID E =
     (case rand_Read E of
        (delivered, Some e) \<Rightarrow> Inl (Wrapf ''failed to generate random bytes'' e)
      | (delivered, None) \<Rightarrow> Inr (Sprintf_x (filled delivered)))"

text \<open>The variant of \<open>main.go\<close>, which opens \<open>/dev/urandom\<close> and reads the file.\<close>

definition generateVaultID_urandom :: "env \<Rightarrow> error + string" where
  "generateVaultID_urandom E =
     (case open_urandom E of
        Some e \<Rightarrow> Inl e
      | None \<Rightarrow>
          (case file_Read E of
             (delivered, Some e) \<Rightarrow> Inl e
           | (delivered, None) \<Rightarrow> Inr (Sprintf_x (filled delivered))))"

text \<open>Reading an identifier back into bytes.\<close>

definition digit_val :: "char \<Rightarrow> nat" where
  "digit_val c = length (takeWhile (\<lambda>d. d \<noteq> c) ldigits)"

fun unhex :: "string \<Rightarrow> 8 word list" where
  "unhex (h # l # cs) = of_nat (digit_val h * 16 + digit_val l) # unhex cs"
| "unhex cs = []"

section \<open>The vault's files\<close>

definition loadEmbeddedTemplate :: "env \<Rightarrow> string \<Rightarrow> error + string" where
  "loadEmbeddedTemplate E filename =
     (case templatesFS E filename of
        Inl e \<Rightarrow> Inl (Wrapf (''failed to read embedded template file '' @ filename) e)
      | Inr content \<Rightarrow> Inr content)"

text \<open>
  The loop of \<open>createObsidianFiles\<close> and of \<open>createInitialFiles\<close>, over the entries of
  \<open>templateFiles\<close> in the order the \<open>range\<close> visits them.
\<close>

fun write_templates :: "env \<Rightarrow> string \<Rightarrow> (string \<times> string) list \<Rightarrow> fs \<Rightarrow> error option \<times> fs" where
  "write_templates E dir [] s = (None, s)"
| "write_templates E dir ((filename, templatePath) # rest) s =
     (case loadEmbeddedTemplate E templatePath of
        Inl e \<Rightarrow> (Some e, s)
      | Inr content \<Rightarrow>
          (case os_WriteFile E (Join dir filename) content s of
             (Some e, s') \<Rightarrow> (Some (Wrapf (''failed to write '' @ filename) e), s')
           | (None, s') \<Rightarrow> write_templates E dir rest s'))"

definition obsidian_templateFiles :: "(string \<times> string) list" where
  "obsidian_templateFiles =
     [(''app.json'', ''templates/app.json''),
      (''appearance.json'', ''templates/appearance.json''),
      (''core-plugins.json'', ''templates/core-plugins.json''),
      (''graph.json'', ''templates/graph.json''),
      (''workspace.json'', ''templates/workspace.json'')]"

definition createObsidianFiles :: "env \<Rightarrow> string \<Rightarrow> fs \<Rightarrow> error option \<times> fs" where
  "createObsidianFiles E obsidianDir s =
     write_templates E obsidianDir (range_order E obsidian_templateFiles) s"

definition initial_templateFiles :: "(string \<times> string) list" where
  "initial_templateFiles = [(''Welcome.md'', ''templates/Welcome.md'')]"

definition createInitialFiles :: "env \<Rightarrow> string \<Rightarrow> fs \<Rightarrow> error option \<times> fs" where
  "createInitialFiles E vaultPath s =
     write_templates E vaultPath (range_order E initial_templateFiles) s"

text \<open>The names of the five configuration documents.\<close>

definition config_documents :: "string set" where
  "config_documents =
     {''app.json'', ''appearance.json'', ''core-plugins.json'', ''graph.json'', ''workspace.json''}"

text \<open>The regular files directly in a directory.\<close>

definition dir_files :: "fs \<Rightarrow> string \<Rightarrow> string set" where
  "dir_files s d = {n. CHR ''/'' \<notin> set n \<and> files s (Join d n) \<noteq> None}"

section \<open>The orchestrator: \<open>generateVault\<close>\<close>

text \<open>The logging and the two lines printed on success are left out.\<close>

definition generateVault :: "env \<Rightarrow> string \<Rightarrow> fs \<Rightarrow> error option \<times> fs" where
  "generateVault E vaultPath s =
     (case Abs E vaultPath of
        Inl e \<Rightarrow> (Some (Wrapf ''failed to get absolute path'' e), s)
      | Inr absVaultPath \<Rightarrow>
     (case os_MkdirAll E absVaultPath s of
        (Some e, s1) \<Rightarrow> (Some (Wrapf ''failed to create vault directory'' e), s1)
      | (None, s1) \<Rightarrow>
     (let obsidianDir = Join absVaultPath ''.obsidian'' in
      case os_MkdirAll E obsidianDir s1 of
        (Some e, s2) \<Rightarrow> (Some (Wrapf ''failed to create .obsidian directory'' e), s2)
      | (None, s2) \<Rightarrow>
     (case generateVaultID E of
        Inl e \<Rightarrow> (Some (Wrapf ''failed to generate vault ID'' e), s2)
      | Inr vaultID \<Rightarrow>
     (case createObsidianFiles E obsidianDir s2 of
        (Some e, s3) \<Rightarrow> (Some (Wrapf ''failed to create obsidian config files'' e), s3)
      | (None, s3) \<Rightarrow>
     (case createInitialFiles E absVaultPath s3 of
        (Some e, s4) \<Rightarrow> (Some (Wrapf ''failed to create initial files'' e), s4)
      | (None, s4) \<Rightarrow>
     (case updateGlobalConfig E absVaultPath vaultID s4 of
        (Some e, s5) \<Rightarrow> (Some (Wrapf ''failed to update global config'' e), s5)
      | (None, s5) \<Rightarrow> (None, s5))))))))"

subsection \<open>The orchestrator as the specification describes it\<close>

text \<open>
  A run is a list of named phases over the file system and the values found so far.
  The phases run in order; the first one that fails ends the run with its error under
  the phase's name, in the state that phase left.
\<close>

record ctx =
  ctx_absVaultPath :: string
  ctx_obsidianDir :: string
  ctx_vaultID :: string

type_synonym phase = "string \<times> (ctx \<times> fs \<Rightarrow> error option \<times> ctx \<times> fs)"

fun run_phases :: "phase list \<Rightarrow> ctx \<times> fs \<Rightarrow> error option \<times> ctx \<times> fs" where
  "run_phases [] cs = (None, cs)"
| "run_phases ((name, f) # rest) cs =
     (case f cs of
        (Some e, cs') \<Rightarrow> (Some (Wrapf name e), cs')
      | (None, cs') \<Rightarrow> run_phases rest cs')"






section \<open>Strings in \<open>encoding/json\<close>\<close>

text \<open>
  \<open>json.Marshal\<close> writes a string coerced to valid UTF-8: it goes through the bytes as
  \<open>utf8.DecodeRuneInString\<close> does, and a byte that does not start a well-formed
  sequence is replaced by U+FFFD, the bytes \<open>EF BF BD\<close>. \<open>json.Unmarshal\<close> does the
  same to the strings it reads. \<open>starts\<close> says that the bytes at the front lie in the
  given ranges; \<open>rune_len\<close> is the length of the well-formed sequence at the front, or
  0 when there is none.
\<close>

fun starts :: "(nat \<times> nat) list \<Rightarrow> string \<Rightarrow> bool" where
  "starts [] cs = True"
| "starts ((lo, hi) # rs) [] = False"
| "starts ((lo, hi) # rs) (c # cs) = (lo \<le> of_char c \<and> of_char c \<le> hi \<and> starts rs cs)"

definition rune_len :: "string \<Rightarrow> nat" where
  "rune_len cs =
     (if starts [(0x00, 0x7F)] cs then 1
      else if starts [(0xC2, 0xDF), (0x80, 0xBF)] cs then 2
      else if starts [(0xE0, 0xE0), (0xA0, 0xBF), (0x80, 0xBF)] cs then 3
      else if starts [(0xE1, 0xEC), (0x80, 0xBF), (0x80, 0xBF)] cs then 3
      else if starts [(0xED, 0xED), (0x80, 0x9F), (0x80, 0xBF)] cs then 3
      else if starts [(0xEE, 0xEF), (0x80, 0xBF), (0x80, 0xBF)] cs then 3
      else if starts [(0xF0, 0xF0), (0x90, 0xBF), (0x80, 0xBF), (0x80, 0xBF)] cs then 4
      else if starts [(0xF1, 0xF3), (0x80, 0xBF), (0x80, 0xBF), (0x80, 0xBF)] cs then 4
      else if starts [(0xF4, 0xF4), (0x80, 0x8F), (0x80, 0xBF), (0x80, 0xBF)] cs then 4
      else 0)"

definition replacement :: string where
  "replacement = [CHR 0xEF, CHR 0xBF, CHR 0xBD]"

text \<open>\<open>coerce_from k cs\<close>: the first \<open>k\<close> bytes finish a sequence already accepted.\<close>

fun coerce_from :: "nat \<Rightarrow> string \<Rightarrow> string" where
  "coerce_from k [] = []"
| "coerce_from (Suc k) (c # cs) = c # coerce_from k cs"
| "coerce_from 0 (c # cs) =
     (case rune_len (c # cs) of
        0 \<Rightarrow> replacement @ coerce_from 0 cs
      | Suc k \<Rightarrow> c # coerce_from k cs)"

definition utf8_coerce :: "string \<Rightarrow> string" where
  "utf8_coerce s = coerce_from 0 s"

text \<open>
  What \<open>json.Unmarshal\<close> reads from what \<open>json.MarshalIndent\<close> wrote: the registry with
  the path of each record coerced. The keys of the maps are coerced in the same way;
  \<open>keys_valid\<close> says that they are valid already.
\<close>

definition coerced_vault :: "VaultConfig \<Rightarrow> VaultConfig" where
  "coerced_vault r = r\<lparr>Path := utf8_coerce (Path r)\<rparr>"

definition coerce_config :: "ObsidianConfig \<Rightarrow> ObsidianConfig" where
  "coerce_config w =
     \<lparr>Vaults = map_option (\<lambda>m k. map_option coerced_vault (m k)) (Vaults w),
      OpenSchemes = OpenSchemes w\<rparr>"

definition keys_valid :: "ObsidianConfig \<Rightarrow> bool" where
  "keys_valid w \<longleftrightarrow>
     (\<forall>k. (\<exists>m. Vaults w = Some m \<and> m k \<noteq> None) \<or> (\<exists>m. OpenSchemes w = Some m \<and> m k \<noteq> None)
          \<longrightarrow> utf8_coerce k = k)"

text \<open>
  The two facts about \<open>encoding/json\<close> that the round trip of the registry rests on:
  the strings of a parsed registry are valid UTF-8, and a registry with valid keys is
  read back as it was written, its paths coerced.
\<close>

definition json_utf8_codec :: "env \<Rightarrow> bool" where
  "json_utf8_codec E \<longleftrightarrow>
     (\<forall>data c. json_Unmarshal E data = Inr c \<longrightarrow> keys_valid c)
   \<and> (\<forall>w out. json_MarshalIndent E w = Inr out \<and> keys_valid w
          \<longrightarrow> json_Unmarshal E out = Inr (coerce_config w))"

section \<open>Sample environments\<close>

definition old_vault :: VaultConfig where
  "old_vault = \<lparr>Path = ''/old'', Ts = 7, Open = False\<rparr>"

definition ok_config :: ObsidianConfig where
  "ok_config = \<lparr>Vaults = Some [''aa'' \<mapsto> old_vault], OpenSchemes = Some [''vscode'' \<mapsto> False]\<rparr>"

definition fresh_config :: ObsidianConfig where
  "fresh_config =
     \<lparr>Vaults = Some [''0011'' \<mapsto> \<lparr>Path = ''/v'', Ts = 1757173820641, Open = True\<rparr>],
      OpenSchemes = Some [''vscode'' \<mapsto> True, ''chrome-extension'' \<mapsto> True]\<rparr>"

definition merged_config :: ObsidianConfig where
  "merged_config =
     \<lparr>Vaults = Some [''aa'' \<mapsto> old_vault,
                      ''0011'' \<mapsto> \<lparr>Path = ''/v'', Ts = 1757173820641, Open = True\<rparr>],
      OpenSchemes = Some [''vscode'' \<mapsto> False]\<rparr>"

definition sample_Unmarshal :: "string \<Rightarrow> error + ObsidianConfig" where
  "sample_Unmarshal data =
     (if data = ''null'' then Inr \<lparr>Vaults = None, OpenSchemes = None\<rparr>
      else if data = ''old'' then Inr ok_config
      else if data = ''fresh'' then Inr fresh_config
      else if data = ''merged'' then Inr merged_config
      else Inl (Errno ''invalid character''))"

definition sample_MarshalIndent :: "ObsidianConfig \<Rightarrow> error + string" where
  "sample_MarshalIndent c =
     Inr (if c = fresh_config then ''fresh'' else if c = merged_config then ''merged''
          else ''other'')"

definition codec_MarshalIndent :: "ObsidianConfig \<Rightarrow> error + string" where
  "codec_MarshalIndent c =
     (if c = fresh_config then Inr ''fresh'' else if c = merged_config then Inr ''merged''
      else Inl (Errno ''unsupported value''))"

definition sample_env :: env where
  "sample_env = \<lparr>
     UserConfigDirectory = Inr ''/home/u/.config'',
     Abs = (\<lambda>p. Inr p),
     mkdir_fault = (\<lambda>p. None),
     read_fault = (\<lambda>p. None),
     write_fault = (\<lambda>p. None),
     json_Unmarshal = sample_Unmarshal,
     json_MarshalIndent = sample_MarshalIndent,
     rand_Read = ([0, 17], None),
     open_urandom = None,
     file_Read = ([0, 17], None),
     templatesFS = (\<lambda>n. Inr (''content of '' @ n)),
     range_order = (\<lambda>xs. xs),
     now = 42\<rparr>"

definition codec_env :: env where
  "codec_env = sample_env\<lparr>json_MarshalIndent := codec_MarshalIndent\<rparr>"

definition short_env :: env where
  "short_env = sample_env\<lparr>file_Read := ([170, 187, 204], None)\<rparr>"

definition bad_path :: string where
  "bad_path = ''/tmp/'' @ [CHR 0xFF]"

definition bad_config :: ObsidianConfig where
  "bad_config =
     \<lparr>Vaults = Some [''0011'' \<mapsto> \<lparr>Path = bad_path, Ts = 1757173820641, Open = True\<rparr>],
      OpenSchemes = Some [''vscode'' \<mapsto> True, ''chrome-extension'' \<mapsto> True]\<rparr>"

text \<open>A codec on two registries that coerces the strings as \<open>encoding/json\<close> does.\<close>

definition coercing_MarshalIndent :: "ObsidianConfig \<Rightarrow> error + string" where
  "coercing_MarshalIndent c =
     (if c = fresh_config then Inr ''fresh'' else if c = bad_config then Inr ''bad''
      else Inl (Errno ''unsupported value''))"

definition coercing_Unmarshal :: "string \<Rightarrow> error + ObsidianConfig" where
  "coercing_Unmarshal data =
     (if data = ''fresh'' then Inr (coerce_config fresh_config)
      else if data = ''bad'' then Inr (coerce_config bad_config)
      else Inl (Errno ''invalid character''))"

definition coercing_env :: env where
  "coercing_env = sample_env\<lparr>json_MarshalIndent := coercing_MarshalIndent,
                              json_Unmarshal := coercing_Unmarshal\<rparr>"

definition empty_fs :: fs where
  "empty_fs = \<lparr>files = Map.empty, dirs = {}\<rparr>"

definition corrupt_fs :: fs where
  "corrupt_fs = \<lparr>files = [''/home/u/.config/obsidian/obsidian.json'' \<mapsto> ''{oops''],
                 dirs = {''/home/u/.config/obsidian''}\<rparr>"

definition old_fs :: fs where
  "old_fs = \<lparr>files = [''/home/u/.config/obsidian/obsidian.json'' \<mapsto> ''old''],
             dirs = {''/home/u/.config/obsidian''}\<rparr>"

definition null_fs :: fs where
  "null_fs = \<lparr>files = [''/home/u/.config/obsidian/obsidian.json'' \<mapsto> ''null''],
              dirs = {''/home/u/.config/obsidian''}\<rparr>"

definition used_fs :: fs where
  "used_fs = \<lparr>files = [''/v/notes.md'' \<mapsto> ''my notes''], dirs = {''/v''}\<rparr>"

section \<open>Properties of the registry update\<close>


text \<open>
  C1. When the registry file is there and its bytes do not parse, \<open>updateGlobalConfig\<close>
  fails with \<open>RegistryCorrupt\<close> (the parser's error, wrapped) and no file has changed:
  the registry file holds the bytes it held before the call. The hypotheses say that
  the call reaches the read: the configuration directory is known and its
  \<open>obsidian\<close> directory could be ensured.
\<close>

theorem corrupt_registry_kept:
  assumes "UserConfigDirectory E = Inr configDir"
    and "mkdir_fault E (Dir (obsidianConfigPath configDir)) = None"
    and "read_fault E (obsidianConfigPath configDir) = None"
    and "files s (obsidianConfigPath configDir) = Some data"
    and "json_Unmarshal E data = Inl e"
  shows "fst (updateGlobalConfig E vaultPath vaultID s) = Some (RegistryCorrupt e)
       \<and> files (snd (updateGlobalConfig E vaultPath vaultID s)) = files s
       \<and> files (snd (updateGlobalConfig E vaultPath vaultID s)) (obsidianConfigPath configDir)
           = Some data"
  using assms
  by (simp add: updateGlobalConfig_def os_MkdirAll_def os_ReadFile_def RegistryCorrupt_def Let_def)

theorem corrupt_registry_kept_witness:
  "fst (updateGlobalConfig sample_env ''/v'' ''0011'' corrupt_fs)
     = Some (RegistryCorrupt (Errno ''invalid character''))
   \<and> files (snd (updateGlobalConfig sample_env ''/v'' ''0011'' corrupt_fs))
       ''/home/u/.config/obsidian/obsidian.json'' = Some ''{oops''"
proof -
  have p: "obsidianConfigPath ''/home/u/.config'' = ''/home/u/.config/obsidian/obsidian.json''"
    by (simp add: obsidianConfigPath_def Join_def)
  have "fst (updateGlobalConfig sample_env ''/v'' ''0011'' corrupt_fs)
          = Some (RegistryCorrupt (Errno ''invalid character''))
      \<and> files (snd (updateGlobalConfig sample_env ''/v'' ''0011'' corrupt_fs)) = files corrupt_fs
      \<and> files (snd (updateGlobalConfig sample_env ''/v'' ''0011'' corrupt_fs))
          (obsidianConfigPath ''/home/u/.config'') = Some ''{oops''"
    by (rule corrupt_registry_kept [where configDir = "''/home/u/.config''"])
       (simp_all add: sample_env_def corrupt_fs_def p sample_Unmarshal_def)
  then show ?thesis by (simp add: p corrupt_fs_def)
qed

lemma updateGlobalConfig_success:
  assumes ok: "updateGlobalConfig E vaultPath vaultID s = (None, s')"
    and cd: "UserConfigDirectory E = Inr configDir"
  shows "\<exists>c out.
           (case os_ReadFile E (obsidianConfigPath configDir) s of
              Inr data \<Rightarrow> json_Unmarshal E data = Inr c
            | Inl e \<Rightarrow> errors_Is_NotExist e \<and> c = \<lparr>Vaults = None, OpenSchemes = None\<rparr>)
         \<and> json_MarshalIndent E
              \<lparr>Vaults = Some ((case Vaults c of None \<Rightarrow> Map.empty | Some m \<Rightarrow> m)
                                (vaultID \<mapsto> new_VaultConfig vaultPath)),
               OpenSchemes = Some (case OpenSchemes c of None \<Rightarrow> default_OpenSchemes | Some m \<Rightarrow> m)\<rparr>
              = Inr out
         \<and> files s' = (files s)(obsidianConfigPath configDir \<mapsto> out)"
  using ok cd
  by (auto simp: updateGlobalConfig_def os_MkdirAll_def os_ReadFile_def os_WriteFile_def
        store_config_def Let_def
      split: option.splits sum.splits prod.splits if_splits)

lemma updateGlobalConfig_runs:
  assumes cd: "UserConfigDirectory E = Inr configDir"
    and mk: "mkdir_fault E (Dir (obsidianConfigPath configDir)) = None"
    and wr: "write_fault E (obsidianConfigPath configDir) = None"
    and rd: "case os_ReadFile E (obsidianConfigPath configDir) s of
               Inr data \<Rightarrow> json_Unmarshal E data = Inr c
             | Inl e \<Rightarrow> errors_Is_NotExist e \<and> c = \<lparr>Vaults = None, OpenSchemes = None\<rparr>"
    and ms: "json_MarshalIndent E
              \<lparr>Vaults = Some ((case Vaults c of None \<Rightarrow> Map.empty | Some m \<Rightarrow> m)
                                (vaultID \<mapsto> new_VaultConfig vaultPath)),
               OpenSchemes = Some (case OpenSchemes c of None \<Rightarrow> default_OpenSchemes | Some m \<Rightarrow> m)\<rparr>
              = Inr out"
  shows "fst (updateGlobalConfig E vaultPath vaultID s) = None
       \<and> files (snd (updateGlobalConfig E vaultPath vaultID s))
           = (files s)(obsidianConfigPath configDir \<mapsto> out)"
  using assms
  by (auto simp: updateGlobalConfig_def os_MkdirAll_def os_ReadFile_def os_WriteFile_def
        store_config_def Let_def
      split: option.splits sum.splits prod.splits if_splits)

text \<open>
  C2. When there is no registry file, \<open>updateGlobalConfig\<close> succeeds and the file it
  writes is the serialisation of a registry whose vaults are the one new record and
  whose schemes are \<open>vscode\<close> and \<open>chrome-extension\<close>, both true. The same holds
  for a registry that was parsed with no vault mapping, or with no scheme mapping: the
  missing mapping is replaced so. The hypotheses say that no call of the operating
  system fails and that the serialisation cannot fail.
\<close>

theorem missing_registry_defaults:
  assumes cd: "UserConfigDirectory E = Inr configDir"
    and mk: "mkdir_fault E (Dir (obsidianConfigPath configDir)) = None"
    and rd: "read_fault E (obsidianConfigPath configDir) = None"
    and wr: "write_fault E (obsidianConfigPath configDir) = None"
    and ms: "\<And>w. \<exists>out. json_MarshalIndent E w = Inr out"
    and prior: "files s (obsidianConfigPath configDir) = None
                  \<and> c = \<lparr>Vaults = None, OpenSchemes = None\<rparr>
              \<or> (\<exists>data. files s (obsidianConfigPath configDir) = Some data
                     \<and> json_Unmarshal E data = Inr c)"
  shows "fst (updateGlobalConfig E vaultPath vaultID s) = None
       \<and> (\<exists>w out. json_MarshalIndent E w = Inr out
            \<and> files (snd (updateGlobalConfig E vaultPath vaultID s))
                 (obsidianConfigPath configDir) = Some out
            \<and> (Vaults c = None \<longrightarrow>
                 Vaults w = Some [vaultID \<mapsto> \<lparr>Path = vaultPath, Ts = 1757173820641, Open = True\<rparr>])
            \<and> (OpenSchemes c = None \<longrightarrow>
                 OpenSchemes w = Some [''vscode'' \<mapsto> True, ''chrome-extension'' \<mapsto> True]))"
proof -
  let ?w = "\<lparr>Vaults = Some ((case Vaults c of None \<Rightarrow> Map.empty | Some m \<Rightarrow> m)
                                (vaultID \<mapsto> new_VaultConfig vaultPath)),
             OpenSchemes = Some (case OpenSchemes c of None \<Rightarrow> default_OpenSchemes | Some m \<Rightarrow> m)\<rparr>"
  obtain out where out: "json_MarshalIndent E ?w = Inr out"
    using ms by blast
  have loaded: "case os_ReadFile E (obsidianConfigPath configDir) s of
               Inr data \<Rightarrow> json_Unmarshal E data = Inr c
             | Inl e \<Rightarrow> errors_Is_NotExist e \<and> c = \<lparr>Vaults = None, OpenSchemes = None\<rparr>"
    using prior rd by (auto simp: os_ReadFile_def)
  have run: "fst (updateGlobalConfig E vaultPath vaultID s) = None
       \<and> files (snd (updateGlobalConfig E vaultPath vaultID s))
           = (files s)(obsidianConfigPath configDir \<mapsto> out)"
    by (rule updateGlobalConfig_runs [OF cd mk wr loaded out])
  have "Vaults c = None \<longrightarrow>
          Vaults ?w = Some [vaultID \<mapsto> \<lparr>Path = vaultPath, Ts = 1757173820641, Open = True\<rparr>]"
    by (simp add: new_VaultConfig_def)
  moreover have "OpenSchemes c = None \<longrightarrow>
          OpenSchemes ?w = Some [''vscode'' \<mapsto> True, ''chrome-extension'' \<mapsto> True]"
    by (simp add: default_OpenSchemes_def)
  ultimately show ?thesis
    using run out by (intro conjI exI [of _ ?w] exI [of _ out]) simp_all
qed


lemma sample_path:
  "obsidianConfigPath ''/home/u/.config'' = ''/home/u/.config/obsidian/obsidian.json''"
  by (simp add: obsidianConfigPath_def Join_def)

theorem missing_registry_defaults_witness:
  "fst (updateGlobalConfig sample_env ''/v'' ''0011'' empty_fs) = None
   \<and> files (snd (updateGlobalConfig sample_env ''/v'' ''0011'' empty_fs))
        ''/home/u/.config/obsidian/obsidian.json'' = Some ''fresh''"
proof -
  have "fst (updateGlobalConfig sample_env ''/v'' ''0011'' empty_fs) = None
       \<and> (\<exists>w out. json_MarshalIndent sample_env w = Inr out
            \<and> files (snd (updateGlobalConfig sample_env ''/v'' ''0011'' empty_fs))
                 (obsidianConfigPath ''/home/u/.config'') = Some out
            \<and> (Vaults \<lparr>Vaults = None, OpenSchemes = None\<rparr> = None \<longrightarrow>
                 Vaults w = Some [''0011'' \<mapsto> \<lparr>Path = ''/v'', Ts = 1757173820641, Open = True\<rparr>])
            \<and> (OpenSchemes \<lparr>Vaults = None, OpenSchemes = None\<rparr> = None \<longrightarrow>
                 OpenSchemes w = Some [''vscode'' \<mapsto> True, ''chrome-extension'' \<mapsto> True]))"
    by (rule missing_registry_defaults [where configDir = "''/home/u/.config''"])
       (simp_all add: sample_env_def sample_MarshalIndent_def empty_fs_def)
  then obtain w out where
    a: "fst (updateGlobalConfig sample_env ''/v'' ''0011'' empty_fs) = None"
    and b: "json_MarshalIndent sample_env w = Inr out"
    and c: "files (snd (updateGlobalConfig sample_env ''/v'' ''0011'' empty_fs))
                 ''/home/u/.config/obsidian/obsidian.json'' = Some out"
    and d: "Vaults w = Some [''0011'' \<mapsto> \<lparr>Path = ''/v'', Ts = 1757173820641, Open = True\<rparr>]"
    and e: "OpenSchemes w = Some [''vscode'' \<mapsto> True, ''chrome-extension'' \<mapsto> True]"
    by (auto simp: sample_path)
  have "w = fresh_config"
    using d e by (simp add: fresh_config_def)
  then have "out = ''fresh''"
    using b by (simp add: sample_env_def sample_MarshalIndent_def)
  then show ?thesis using a c by simp
qed

text \<open>
  C3. After a successful \<open>updateGlobalConfig\<close> on a registry that parsed, the file holds
  the serialisation of a registry whose vault mapping is the prior one with
  \<open>vaultID\<close> bound to the new record: the records under other keys are the prior ones,
  and a prior record under \<open>vaultID\<close> is replaced.
\<close>

theorem registry_insert_frame:
  assumes ok: "updateGlobalConfig E vaultPath vaultID s = (None, s')"
    and cd: "UserConfigDirectory E = Inr configDir"
    and rd: "os_ReadFile E (obsidianConfigPath configDir) s = Inr data"
    and un: "json_Unmarshal E data = Inr c"
    and vs: "Vaults c = Some m"
  shows "\<exists>w out m'. json_MarshalIndent E w = Inr out
           \<and> files s' (obsidianConfigPath configDir) = Some out
           \<and> Vaults w = Some m'
           \<and> m' vaultID = Some \<lparr>Path = vaultPath, Ts = 1757173820641, Open = True\<rparr>
           \<and> (\<forall>k. k \<noteq> vaultID \<longrightarrow> m' k = m k)"
proof -
  from updateGlobalConfig_success [OF ok cd] rd un vs
  obtain out where
    out: "json_MarshalIndent E
            \<lparr>Vaults = Some (m(vaultID \<mapsto> new_VaultConfig vaultPath)),
             OpenSchemes = Some (case OpenSchemes c of None \<Rightarrow> default_OpenSchemes
                                 | Some sch \<Rightarrow> sch)\<rparr> = Inr out"
    and fl: "files s' = (files s)(obsidianConfigPath configDir \<mapsto> out)"
    by auto
  let ?w = "\<lparr>Vaults = Some (m(vaultID \<mapsto> new_VaultConfig vaultPath)),
             OpenSchemes = Some (case OpenSchemes c of None \<Rightarrow> default_OpenSchemes
                                 | Some sch \<Rightarrow> sch)\<rparr>"
  have "json_MarshalIndent E ?w = Inr out
      \<and> files s' (obsidianConfigPath configDir) = Some out
      \<and> Vaults ?w = Some (m(vaultID \<mapsto> new_VaultConfig vaultPath))
      \<and> (m(vaultID \<mapsto> new_VaultConfig vaultPath)) vaultID
          = Some \<lparr>Path = vaultPath, Ts = 1757173820641, Open = True\<rparr>
      \<and> (\<forall>k. k \<noteq> vaultID \<longrightarrow> (m(vaultID \<mapsto> new_VaultConfig vaultPath)) k = m k)"
    using out fl by (simp add: new_VaultConfig_def)
  then show ?thesis by blast
qed

theorem registry_insert_frame_witness:
  "\<exists>w out m'. json_MarshalIndent sample_env w = Inr out
     \<and> files (snd (updateGlobalConfig sample_env ''/v'' ''0011'' old_fs))
          ''/home/u/.config/obsidian/obsidian.json'' = Some out
     \<and> Vaults w = Some m'
     \<and> m' ''0011'' = Some \<lparr>Path = ''/v'', Ts = 1757173820641, Open = True\<rparr>
     \<and> m' ''aa'' = Some old_vault"
proof -
  have run: "updateGlobalConfig sample_env ''/v'' ''0011'' old_fs
               = (None, snd (updateGlobalConfig sample_env ''/v'' ''0011'' old_fs))"
    by (simp add: updateGlobalConfig_def sample_env_def old_fs_def sample_path os_MkdirAll_def
          os_ReadFile_def os_WriteFile_def store_config_def sample_Unmarshal_def
          sample_MarshalIndent_def Let_def)
  have "\<exists>w out m'. json_MarshalIndent sample_env w = Inr out
           \<and> files (snd (updateGlobalConfig sample_env ''/v'' ''0011'' old_fs))
                (obsidianConfigPath ''/home/u/.config'') = Some out
           \<and> Vaults w = Some m'
           \<and> m' ''0011'' = Some \<lparr>Path = ''/v'', Ts = 1757173820641, Open = True\<rparr>
           \<and> (\<forall>k. k \<noteq> ''0011'' \<longrightarrow> m' k = [''aa'' \<mapsto> old_vault] k)"
  proof (rule registry_insert_frame [OF run])
    show "UserConfigDirectory sample_env = Inr ''/home/u/.config''"
      by (simp add: sample_env_def)
    show "os_ReadFile sample_env (obsidianConfigPath ''/home/u/.config'') old_fs = Inr ''old''"
      by (simp add: sample_env_def old_fs_def sample_path os_ReadFile_def)
    show "json_Unmarshal sample_env ''old'' = Inr ok_config"
      by (simp add: sample_env_def sample_Unmarshal_def)
    show "Vaults ok_config = Some [''aa'' \<mapsto> old_vault]"
      by (simp add: ok_config_def)
  qed
  then obtain w out m' where
    "json_MarshalIndent sample_env w = Inr out"
    "files (snd (updateGlobalConfig sample_env ''/v'' ''0011'' old_fs))
           (obsidianConfigPath ''/home/u/.config'') = Some out"
    "Vaults w = Some m'"
    "m' ''0011'' = Some \<lparr>Path = ''/v'', Ts = 1757173820641, Open = True\<rparr>"
    "\<forall>k. k \<noteq> ''0011'' \<longrightarrow> m' k = [''aa'' \<mapsto> old_vault] k"
    by blast
  moreover from this have "m' ''aa'' = Some old_vault"
    by simp
  ultimately show ?thesis
    unfolding sample_path by blast
qed

text \<open>
  C10. When the prior registry parsed with a scheme mapping, whatever it holds, the
  registry written has that same mapping: the two default schemes are not added to it.
\<close>

theorem open_schemes_kept:
  assumes ok: "updateGlobalConfig E vaultPath vaultID s = (None, s')"
    and cd: "UserConfigDirectory E = Inr configDir"
    and rd: "os_ReadFile E (obsidianConfigPath configDir) s = Inr data"
    and un: "json_Unmarshal E data = Inr c"
    and sc: "OpenSchemes c = Some sch"
  shows "\<exists>w out. json_MarshalIndent E w = Inr out
           \<and> files s' (obsidianConfigPath configDir) = Some out
           \<and> OpenSchemes w = Some sch"
proof -
  from updateGlobalConfig_success [OF ok cd] rd un sc
  obtain out where
    out: "json_MarshalIndent E
            \<lparr>Vaults = Some ((case Vaults c of None \<Rightarrow> Map.empty | Some m \<Rightarrow> m)
                              (vaultID \<mapsto> new_VaultConfig vaultPath)),
             OpenSchemes = Some sch\<rparr> = Inr out"
    and fl: "files s' = (files s)(obsidianConfigPath configDir \<mapsto> out)"
    by auto
  let ?w = "\<lparr>Vaults = Some ((case Vaults c of None \<Rightarrow> Map.empty | Some m \<Rightarrow> m)
                              (vaultID \<mapsto> new_VaultConfig vaultPath)),
             OpenSchemes = Some sch\<rparr>"
  have "json_MarshalIndent E ?w = Inr out
      \<and> files s' (obsidianConfigPath configDir) = Some out
      \<and> OpenSchemes ?w = Some sch"
    using out fl by simp
  then show ?thesis by blast
qed

theorem open_schemes_kept_witness:
  "\<exists>w out. json_MarshalIndent sample_env w = Inr out
     \<and> files (snd (updateGlobalConfig sample_env ''/v'' ''0011'' old_fs))
          ''/home/u/.config/obsidian/obsidian.json'' = Some out
     \<and> OpenSchemes w = Some [''vscode'' \<mapsto> False]"
proof -
  have run: "updateGlobalConfig sample_env ''/v'' ''0011'' old_fs
               = (None, snd (updateGlobalConfig sample_env ''/v'' ''0011'' old_fs))"
    by (simp add: updateGlobalConfig_def sample_env_def old_fs_def sample_path os_MkdirAll_def
          os_ReadFile_def os_WriteFile_def store_config_def sample_Unmarshal_def
          sample_MarshalIndent_def Let_def)
  have "\<exists>w out. json_MarshalIndent sample_env w = Inr out
           \<and> files (snd (updateGlobalConfig sample_env ''/v'' ''0011'' old_fs))
                (obsidianConfigPath ''/home/u/.config'') = Some out
           \<and> OpenSchemes w = Some [''vscode'' \<mapsto> False]"
    by (rule open_schemes_kept [OF run, where data = "''old''" and c = ok_config])
       (simp_all add: sample_env_def old_fs_def sample_path os_ReadFile_def
          sample_Unmarshal_def ok_config_def)
  then show ?thesis
    by (simp add: sample_path)
qed

lemma codec_run:
  "updateGlobalConfig codec_env ''/v'' ''0011'' old_fs
     = (None, snd (updateGlobalConfig codec_env ''/v'' ''0011'' old_fs))"
  by (simp add: updateGlobalConfig_def codec_env_def sample_env_def old_fs_def sample_path
        os_MkdirAll_def os_ReadFile_def os_WriteFile_def store_config_def sample_Unmarshal_def
        codec_MarshalIndent_def ok_config_def merged_config_def fresh_config_def
        new_VaultConfig_def Let_def)

lemma now_unread:
  "os_MkdirAll (E\<lparr>now := t\<rparr>) p s = os_MkdirAll E p s"
  "os_ReadFile (E\<lparr>now := t\<rparr>) p s = os_ReadFile E p s"
  "os_WriteFile (E\<lparr>now := t\<rparr>) p d s = os_WriteFile E p d s"
  "store_config (E\<lparr>now := t\<rparr>) p vaultPath vaultID c s = store_config E p vaultPath vaultID c s"
  by (simp_all add: os_MkdirAll_def os_ReadFile_def os_WriteFile_def store_config_def
        cong: sum.case_cong)

text \<open>
  C9. The time stored in the inserted record is the literal \<open>1757173820641\<close>, whatever
  the time of the run is: \<open>updateGlobalConfig\<close> does not read the clock. The function is
  the same in every source file that has it.
\<close>

theorem registered_at_constant:
  assumes ok: "updateGlobalConfig E vaultPath vaultID s = (None, s')"
    and cd: "UserConfigDirectory E = Inr configDir"
  shows "updateGlobalConfig (E\<lparr>now := t\<rparr>) vaultPath vaultID s = (None, s')
       \<and> (\<exists>w out r. json_MarshalIndent E w = Inr out
            \<and> files s' (obsidianConfigPath configDir) = Some out
            \<and> lookup_vault w vaultID = Some r
            \<and> Ts r = 1757173820641)"
proof -
  have "updateGlobalConfig (E\<lparr>now := t\<rparr>) vaultPath vaultID s
          = updateGlobalConfig E vaultPath vaultID s"
    by (simp add: updateGlobalConfig_def now_unread Let_def
          split: sum.splits prod.splits option.splits)
  then have same: "updateGlobalConfig (E\<lparr>now := t\<rparr>) vaultPath vaultID s = (None, s')"
    using ok by simp
  from updateGlobalConfig_success [OF ok cd]
  obtain c :: ObsidianConfig and out where
    out: "json_MarshalIndent E
            \<lparr>Vaults = Some ((case Vaults c of None \<Rightarrow> Map.empty | Some m \<Rightarrow> m)
                              (vaultID \<mapsto> new_VaultConfig vaultPath)),
             OpenSchemes = Some (case OpenSchemes c of None \<Rightarrow> default_OpenSchemes
                                 | Some sch \<Rightarrow> sch)\<rparr> = Inr out"
    and fl: "files s' = (files s)(obsidianConfigPath configDir \<mapsto> out)"
    by blast
  let ?w = "\<lparr>Vaults = Some ((case Vaults c of None \<Rightarrow> Map.empty | Some m \<Rightarrow> m)
                              (vaultID \<mapsto> new_VaultConfig vaultPath)),
             OpenSchemes = Some (case OpenSchemes c of None \<Rightarrow> default_OpenSchemes
                                 | Some sch \<Rightarrow> sch)\<rparr>"
  have "json_MarshalIndent E ?w = Inr out
      \<and> files s' (obsidianConfigPath configDir) = Some out
      \<and> lookup_vault ?w vaultID = Some (new_VaultConfig vaultPath)
      \<and> Ts (new_VaultConfig vaultPath) = 1757173820641"
    using out fl by (simp add: lookup_vault_def new_VaultConfig_def)
  then have "\<exists>w out r. json_MarshalIndent E w = Inr out
            \<and> files s' (obsidianConfigPath configDir) = Some out
            \<and> lookup_vault w vaultID = Some r
            \<and> Ts r = 1757173820641"
    by blast
  with same show ?thesis by (rule conjI)
qed

theorem registered_at_constant_witness:
  "updateGlobalConfig (codec_env\<lparr>now := 1757173820999\<rparr>) ''/v'' ''0011'' old_fs
     = (None, snd (updateGlobalConfig codec_env ''/v'' ''0011'' old_fs))
   \<and> (\<exists>w out r. json_MarshalIndent codec_env w = Inr out
        \<and> files (snd (updateGlobalConfig codec_env ''/v'' ''0011'' old_fs))
             ''/home/u/.config/obsidian/obsidian.json'' = Some out
        \<and> lookup_vault w ''0011'' = Some r
        \<and> Ts r = 1757173820641)"
proof -
  have cd: "UserConfigDirectory codec_env = Inr ''/home/u/.config''"
    by (simp add: codec_env_def sample_env_def)
  show ?thesis
    using registered_at_constant [OF codec_run cd, of 1757173820999]
    unfolding sample_path .
qed

text \<open>
  The claim as it is written says that one variant stores the time of the run. At a run
  whose clock shows 42 the record read back holds the literal.
\<close>

theorem registered_at_counterexample:
  "now codec_env = 42
   \<and> read_registry codec_env ''/home/u/.config''
        (snd (updateGlobalConfig codec_env ''/v'' ''0011'' empty_fs)) = Inr fresh_config
   \<and> map_option Ts (lookup_vault fresh_config ''0011'') = Some 1757173820641
   \<and> map_option Ts (lookup_vault fresh_config ''0011'') \<noteq> Some (now codec_env)"
  by (simp add: updateGlobalConfig_def codec_env_def sample_env_def empty_fs_def sample_path
        os_MkdirAll_def os_ReadFile_def os_WriteFile_def store_config_def sample_Unmarshal_def
        codec_MarshalIndent_def fresh_config_def default_OpenSchemes_def new_VaultConfig_def
        read_registry_def lookup_vault_def Let_def)

section \<open>Properties of the identifier\<close>

lemma replicate8: "replicate 8 x = [x, x, x, x, x, x, x, x]"
  by (simp add: numeral_eq_Suc)

lemma length_filled: "length (filled delivered) = 8"
  by (simp add: filled_def)

lemma length_Sprintf_x: "length (Sprintf_x bs) = 2 * length bs"
  by (induction bs) (simp_all add: Sprintf_x_def hex_byte_def)

lemma ldigits_nth_mem: "n < 16 \<Longrightarrow> ldigits ! n \<in> set ldigits"
  by (rule nth_mem) (simp add: ldigits_def)

lemma unat_byte_div: "unat (b :: 8 word) div 16 < 16"
proof -
  have "unat b < 2 ^ LENGTH(8)" by (rule unsigned_less)
  then show ?thesis by simp
qed

lemma set_hex_byte: "set (hex_byte b) \<subseteq> set ldigits"
  by (simp add: hex_byte_def ldigits_nth_mem unat_byte_div)

lemma set_Sprintf_x: "set (Sprintf_x bs) \<subseteq> set ldigits"
  using set_hex_byte by (auto simp: Sprintf_x_def)

lemma digit_val_nth: "n < 16 \<Longrightarrow> digit_val (ldigits ! n) = n"
proof -
  have "\<forall>n<16. digit_val (ldigits ! n) = n"
    by (simp add: All_less_Suc numeral_eq_Suc digit_val_def ldigits_def)
  then show "n < 16 \<Longrightarrow> digit_val (ldigits ! n) = n" by blast
qed

lemma unhex_hex_byte: "unhex (hex_byte b @ cs) = b # unhex cs"
proof -
  have "of_nat (unat b div 16 * 16 + unat b mod 16) = b"
    by simp
  then show ?thesis
    by (simp add: hex_byte_def digit_val_nth unat_byte_div)
qed

lemma unhex_Sprintf_x: "unhex (Sprintf_x bs) = bs"
proof (induction bs)
  case Nil
  then show ?case by (simp add: Sprintf_x_def)
next
  case (Cons b bs)
  have "Sprintf_x (b # bs) = hex_byte b @ Sprintf_x bs"
    by (simp add: Sprintf_x_def)
  then show ?case using Cons.IH by (simp add: unhex_hex_byte)
qed

text \<open>
  C6. An identifier that \<open>generateVaultID\<close> returns, in either variant, has 16
  characters, each one of \<open>0123456789abcdef\<close>, and is the hexadecimal form of the eight
  bytes of the buffer, two digits for each byte: reading it back gives those bytes.
\<close>

theorem vault_id_format:
  assumes "generateVaultID E = Inr v \<or> generateVaultID_urandom E = Inr v"
  shows "length v = 16 \<and> set v \<subseteq> set ''0123456789abcdef''
       \<and> length (unhex v) = 8 \<and> Sprintf_x (unhex v) = v
       \<and> (generateVaultID E = Inr v \<longrightarrow> unhex v = filled (fst (rand_Read E)))
       \<and> (generateVaultID_urandom E = Inr v \<longrightarrow> unhex v = filled (fst (file_Read E)))"
proof -
  from assms obtain d where v: "v = Sprintf_x (filled d)"
    by (auto simp: generateVaultID_def generateVaultID_urandom_def
          split: prod.splits option.splits)
  have "length v = 16"
    by (simp add: v length_Sprintf_x length_filled)
  moreover have "set v \<subseteq> set ''0123456789abcdef''"
    using set_Sprintf_x [of "filled d"] by (simp add: v ldigits_def)
  moreover have "length (unhex v) = 8 \<and> Sprintf_x (unhex v) = v"
    by (simp add: v unhex_Sprintf_x length_filled)
  moreover have "generateVaultID E = Inr v \<longrightarrow> unhex v = filled (fst (rand_Read E))"
    by (auto simp: generateVaultID_def unhex_Sprintf_x split: prod.splits option.splits)
  moreover have "generateVaultID_urandom E = Inr v \<longrightarrow> unhex v = filled (fst (file_Read E))"
    by (auto simp: generateVaultID_urandom_def unhex_Sprintf_x split: prod.splits option.splits)
  ultimately show ?thesis by blast
qed

lemma sample_id: "generateVaultID sample_env = Inr ''0011000000000000''"
  by (simp add: generateVaultID_def sample_env_def Sprintf_x_def hex_byte_def filled_def
        ldigits_def replicate8)

theorem vault_id_format_witness:
  "length ''0011000000000000'' = 16
   \<and> set ''0011000000000000'' \<subseteq> set ''0123456789abcdef''
   \<and> unhex ''0011000000000000'' = [0, 17, 0, 0, 0, 0, 0, 0]"
proof -
  have "filled (fst (rand_Read sample_env)) = [0, 17, 0, 0, 0, 0, 0, 0]"
    by (simp add: sample_env_def filled_def replicate8)
  then show ?thesis
    using vault_id_format [of sample_env "''0011000000000000''"] sample_id by simp
qed

text \<open>
  C7. \<open>generateVaultID\<close> of \<open>main.go\<close> drops the count that \<open>file.Read\<close> returns. When
  the read delivers three bytes and no error, it returns an identifier made of these
  three bytes and five zero bytes.
\<close>

theorem short_read_accepted:
  "file_Read short_env = ([170, 187, 204], None)
   \<and> generateVaultID_urandom short_env = Inr ''aabbcc0000000000''"
  by (simp add: generateVaultID_urandom_def short_env_def sample_env_def Sprintf_x_def
        hex_byte_def filled_def ldigits_def replicate8)

text \<open>
  The other cases of the claim hold in \<open>main.go\<close>: a failing open and a failing read
  give the error. The variant on \<open>crypto/rand\<close> is right when \<open>rand.Read\<close> keeps its
  contract, that it fills the buffer when it returns no error.
\<close>

lemma urandom_unavailable:
  "open_urandom E = Some e \<Longrightarrow> generateVaultID_urandom E = Inl e"
  "open_urandom E = None \<Longrightarrow> file_Read E = (d, Some e) \<Longrightarrow> generateVaultID_urandom E = Inl e"
  by (simp_all add: generateVaultID_urandom_def)

lemma rand_unavailable:
  "rand_Read E = (d, Some e) \<Longrightarrow>
     generateVaultID E = Inl (Wrapf ''failed to generate random bytes'' e)"
  by (simp add: generateVaultID_def)

lemma rand_never_short:
  assumes "snd (rand_Read E) = None \<longleftrightarrow> length (fst (rand_Read E)) = 8"
    and "generateVaultID E = Inr v"
  shows "unhex v = fst (rand_Read E)"
  using assms
  by (auto simp: generateVaultID_def unhex_Sprintf_x filled_def split: prod.splits option.splits)

section \<open>The round trip of the registry\<close>

lemma keys_valid_zero: "keys_valid \<lparr>Vaults = None, OpenSchemes = None\<rparr>"
  by (simp add: keys_valid_def)

lemma keys_valid_default: "default_OpenSchemes k \<noteq> None \<Longrightarrow> utf8_coerce k = k"
  by (auto simp: default_OpenSchemes_def utf8_coerce_def rune_len_def split: if_splits)

lemma keys_valid_written:
  assumes c: "keys_valid c" and v: "utf8_coerce vaultID = vaultID"
  shows "keys_valid
           \<lparr>Vaults = Some ((case Vaults c of None \<Rightarrow> Map.empty | Some m \<Rightarrow> m)
                             (vaultID \<mapsto> r)),
            OpenSchemes = Some (case OpenSchemes c of None \<Rightarrow> default_OpenSchemes
                                | Some sch \<Rightarrow> sch)\<rparr>"
  using c v keys_valid_default
  by (auto simp: keys_valid_def split: option.splits if_splits)

text \<open>
  C4, as amended. After a successful \<open>updateGlobalConfig\<close>, reading the registry file
  back and parsing it gives a registry in which \<open>vaultID\<close> is bound to a record with
  the open flag set and with the path \<open>vaultPath\<close> coerced to valid UTF-8: the path is
  \<open>vaultPath\<close> itself when \<open>vaultPath\<close> is valid UTF-8. The hypotheses say that the file
  can be read, that \<open>encoding/json\<close> behaves as \<open>json_utf8_codec\<close> says, and that the
  identifier is valid UTF-8, as the hexadecimal identifiers are.
\<close>

theorem registry_round_trip_utf8:
  assumes ok: "updateGlobalConfig E vaultPath vaultID s = (None, s')"
    and cd: "UserConfigDirectory E = Inr configDir"
    and rd: "read_fault E (obsidianConfigPath configDir) = None"
    and codec: "json_utf8_codec E"
    and vid: "utf8_coerce vaultID = vaultID"
  shows "\<exists>w r. read_registry E configDir s' = Inr w
           \<and> lookup_vault w vaultID = Some r
           \<and> Open r
           \<and> Path r = utf8_coerce vaultPath
           \<and> (utf8_coerce vaultPath = vaultPath \<longrightarrow> Path r = vaultPath)"
proof -
  from updateGlobalConfig_success [OF ok cd]
  obtain c :: ObsidianConfig and out where
    ld: "case os_ReadFile E (obsidianConfigPath configDir) s of
           Inr data \<Rightarrow> json_Unmarshal E data = Inr c
         | Inl e \<Rightarrow> errors_Is_NotExist e \<and> c = \<lparr>Vaults = None, OpenSchemes = None\<rparr>"
    and out: "json_MarshalIndent E
            \<lparr>Vaults = Some ((case Vaults c of None \<Rightarrow> Map.empty | Some m \<Rightarrow> m)
                              (vaultID \<mapsto> new_VaultConfig vaultPath)),
             OpenSchemes = Some (case OpenSchemes c of None \<Rightarrow> default_OpenSchemes
                                 | Some sch \<Rightarrow> sch)\<rparr> = Inr out"
    and fl: "files s' = (files s)(obsidianConfigPath configDir \<mapsto> out)"
    by blast
  let ?w = "\<lparr>Vaults = Some ((case Vaults c of None \<Rightarrow> Map.empty | Some m \<Rightarrow> m)
                              (vaultID \<mapsto> new_VaultConfig vaultPath)),
             OpenSchemes = Some (case OpenSchemes c of None \<Rightarrow> default_OpenSchemes
                                 | Some sch \<Rightarrow> sch)\<rparr>"
  have "keys_valid c"
  proof (cases "os_ReadFile E (obsidianConfigPath configDir) s")
    case (Inl e)
    with ld show ?thesis by (simp add: keys_valid_zero)
  next
    case (Inr data)
    with ld have "json_Unmarshal E data = Inr c" by simp
    with codec show ?thesis by (auto simp: json_utf8_codec_def)
  qed
  then have "keys_valid ?w"
    using vid by (rule keys_valid_written)
  with codec out have "json_Unmarshal E out = Inr (coerce_config ?w)"
    unfolding json_utf8_codec_def by blast
  then have "read_registry E configDir s' = Inr (coerce_config ?w)"
    using fl rd by (simp add: read_registry_def os_ReadFile_def)
  moreover have "lookup_vault (coerce_config ?w) vaultID
                   = Some (coerced_vault (new_VaultConfig vaultPath))"
    by (simp add: lookup_vault_def coerce_config_def)
  moreover have "Open (coerced_vault (new_VaultConfig vaultPath))
               \<and> Path (coerced_vault (new_VaultConfig vaultPath)) = utf8_coerce vaultPath"
    by (simp add: coerced_vault_def new_VaultConfig_def)
  ultimately show ?thesis by auto
qed

lemma utf8_samples:
  "utf8_coerce ''0011'' = ''0011''"
  "utf8_coerce ''/v'' = ''/v''"
  "utf8_coerce ''vscode'' = ''vscode''"
  "utf8_coerce ''chrome-extension'' = ''chrome-extension''"
  "utf8_coerce bad_path = ''/tmp/'' @ [CHR 0xEF, CHR 0xBF, CHR 0xBD]"
  by (simp_all add: utf8_coerce_def rune_len_def bad_path_def replacement_def)

lemma coerce_fresh: "coerce_config fresh_config = fresh_config"
  by (auto simp: coerce_config_def fresh_config_def coerced_vault_def utf8_samples fun_eq_iff)

lemma keys_valid_samples: "keys_valid fresh_config" "keys_valid bad_config"
  by (auto simp: keys_valid_def fresh_config_def bad_config_def utf8_samples split: if_splits)

lemma keys_valid_coerce: "keys_valid (coerce_config w) = keys_valid w"
  by (auto simp: keys_valid_def coerce_config_def)

lemma coercing_env_codec: "json_utf8_codec coercing_env"
  by (auto simp: json_utf8_codec_def coercing_env_def sample_env_def coercing_MarshalIndent_def
        coercing_Unmarshal_def keys_valid_coerce keys_valid_samples split: if_splits)

lemma coercing_run:
  "updateGlobalConfig coercing_env ''/v'' ''0011'' empty_fs
     = (None, snd (updateGlobalConfig coercing_env ''/v'' ''0011'' empty_fs))"
  by (simp add: updateGlobalConfig_def coercing_env_def sample_env_def empty_fs_def sample_path
        os_MkdirAll_def os_ReadFile_def os_WriteFile_def store_config_def
        coercing_MarshalIndent_def fresh_config_def default_OpenSchemes_def
        new_VaultConfig_def Let_def)

theorem registry_round_trip_utf8_witness:
  "\<exists>w r. read_registry coercing_env ''/home/u/.config''
            (snd (updateGlobalConfig coercing_env ''/v'' ''0011'' empty_fs)) = Inr w
     \<and> lookup_vault w ''0011'' = Some r \<and> Open r \<and> Path r = ''/v''"
proof -
  have cd: "UserConfigDirectory coercing_env = Inr ''/home/u/.config''"
    by (simp add: coercing_env_def sample_env_def)
  have rd: "read_fault coercing_env (obsidianConfigPath ''/home/u/.config'') = None"
    by (simp add: coercing_env_def sample_env_def)
  from registry_round_trip_utf8 [OF coercing_run cd rd coercing_env_codec utf8_samples(1)]
  show ?thesis by (auto simp: utf8_samples)
qed

text \<open>
  The claim as it is written fails for a path that is not valid UTF-8, which a command
  line can hold: with the path \<open>/tmp/\<close> followed by the byte \<open>FF\<close> the call succeeds and
  the record read back has the three bytes of U+FFFD in the place of that byte.
\<close>

lemma bad_not_fresh: "bad_config \<noteq> fresh_config"
proof
  assume "bad_config = fresh_config"
  then have "lookup_vault bad_config ''0011'' = lookup_vault fresh_config ''0011''"
    by simp
  then show False
    by (simp add: lookup_vault_def bad_config_def fresh_config_def bad_path_def)
qed

lemma coercing_bad_run:
  "updateGlobalConfig coercing_env bad_path ''0011'' empty_fs
     = (None, \<lparr>files = [''/home/u/.config/obsidian/obsidian.json'' \<mapsto> ''bad''],
               dirs = set (parents ''/home/u/.config/obsidian'') \<union> {''/home/u/.config/obsidian''}\<rparr>)"
proof -
  have w: "\<lparr>Vaults = Some [''0011'' \<mapsto> new_VaultConfig bad_path],
            OpenSchemes = Some default_OpenSchemes\<rparr> = bad_config"
    by (simp add: bad_config_def new_VaultConfig_def default_OpenSchemes_def)
  have d: "Dir ''/home/u/.config/obsidian/obsidian.json'' = ''/home/u/.config/obsidian''"
    by (simp add: Dir_def)
  show ?thesis
    by (simp add: updateGlobalConfig_def coercing_env_def sample_env_def empty_fs_def sample_path
          os_MkdirAll_def os_ReadFile_def os_WriteFile_def store_config_def w d
          coercing_MarshalIndent_def bad_not_fresh Let_def)
qed

theorem registry_round_trip_counterexample:
  "fst (updateGlobalConfig coercing_env bad_path ''0011'' empty_fs) = None
   \<and> read_registry coercing_env ''/home/u/.config''
        (snd (updateGlobalConfig coercing_env bad_path ''0011'' empty_fs))
       = Inr (coerce_config bad_config)
   \<and> map_option Path (lookup_vault (coerce_config bad_config) ''0011'')
       = Some (''/tmp/'' @ [CHR 0xEF, CHR 0xBF, CHR 0xBD])
   \<and> map_option Path (lookup_vault (coerce_config bad_config) ''0011'') \<noteq> Some bad_path"
proof -
  have rd: "read_registry coercing_env ''/home/u/.config''
              (snd (updateGlobalConfig coercing_env bad_path ''0011'' empty_fs))
            = Inr (coerce_config bad_config)"
    unfolding coercing_bad_run
    by (simp add: read_registry_def os_ReadFile_def sample_path
          coercing_env_def sample_env_def coercing_Unmarshal_def)
  have p: "map_option Path (lookup_vault (coerce_config bad_config) ''0011'')
             = Some (''/tmp/'' @ [CHR 0xEF, CHR 0xBF, CHR 0xBD])"
    by (simp add: lookup_vault_def coerce_config_def bad_config_def coerced_vault_def
          utf8_samples)
  have ne: "''/tmp/'' @ [CHR 0xEF, CHR 0xBF, CHR 0xBD] \<noteq> bad_path"
    by (simp add: bad_path_def)
  have q: "map_option Path (lookup_vault (coerce_config bad_config) ''0011'') \<noteq> Some bad_path"
    unfolding p using ne by simp
  have ok: "fst (updateGlobalConfig coercing_env bad_path ''0011'' empty_fs) = None"
    by (simp add: coercing_bad_run)
  from ok rd p q show ?thesis by (intro conjI)
qed

section \<open>Properties of the orchestrator\<close>

text \<open>
  What a run of phases does. When it fails, some phase of the list failed after all the
  phases before it had succeeded; the error is that phase's error under its name, the
  state is the one that phase left, and the phases after it have no part in the result.
  When it succeeds, every phase of the list has run and succeeded.
\<close>

lemma run_phases_append:
  "run_phases (pre @ post) cs =
     (case run_phases pre cs of
        (Some e, cs') \<Rightarrow> (Some e, cs')
      | (None, cs') \<Rightarrow> run_phases post cs')"
  by (induction pre arbitrary: cs) (auto split: prod.splits option.splits)


lemma run_phases_all_ran:
  assumes "run_phases (pre @ (name, f) # post) cs = (None, cs')"
  shows "\<exists>cs0 cs1. run_phases pre cs = (None, cs0) \<and> f cs0 = (None, cs1)
           \<and> run_phases post cs1 = (None, cs')"
  using assms
  by (auto simp: run_phases_append split: prod.splits option.splits)




section \<open>Properties of the vault's files\<close>

lemma split_at_first:
  assumes "x \<notin> set xs" and "x \<notin> set xs'" and "xs @ x # ys = xs' @ x # ys'"
  shows "xs = xs' \<and> ys = ys'"
proof -
  have "takeWhile (\<lambda>c. c \<noteq> x) (xs @ x # ys) = xs"
    using assms(1) by (induction xs) auto
  moreover have "takeWhile (\<lambda>c. c \<noteq> x) (xs' @ x # ys') = xs'"
    using assms(2) by (induction xs') auto
  ultimately have "xs = xs'" using assms(3) by simp
  with assms(3) show ?thesis by simp
qed

lemma Join_inject:
  assumes "CHR ''/'' \<notin> set n" and "CHR ''/'' \<notin> set m"
  shows "Join a n = Join b m \<longleftrightarrow> a = b \<and> n = m"
proof
  assume "Join a n = Join b m"
  then have "rev (Join a n) = rev (Join b m)" by simp
  then have "rev n @ CHR ''/'' # rev a = rev m @ CHR ''/'' # rev b"
    by (simp add: Join_def)
  with assms have "rev n = rev m \<and> rev a = rev b"
    by (intro split_at_first) simp_all
  then show "a = b \<and> n = m" by simp
next
  assume "a = b \<and> n = m"
  then show "Join a n = Join b m" by simp
qed

lemma Join_same: "Join d n = Join d m \<longleftrightarrow> n = m"
  by (simp add: Join_def)

lemma Join_not_self: "Join a n \<noteq> a"
  by (simp add: Join_def)

lemma write_templates_dirs:
  "write_templates E dir xs s = (r, s') \<Longrightarrow> dirs s' = dirs s"
  by (induction xs arbitrary: s)
     (auto simp: os_WriteFile_def split: sum.splits option.splits prod.splits)

lemma write_templates_frame:
  "write_templates E dir xs s = (r, s') \<Longrightarrow> p \<notin> Join dir ` fst ` set xs
     \<Longrightarrow> files s' p = files s p"
  by (induction xs arbitrary: s)
     (auto simp: os_WriteFile_def split: sum.splits option.splits prod.splits)

lemma write_templates_content:
  assumes "write_templates E dir xs s = (None, s')" and "(n, t) \<in> set xs"
  shows "\<exists>t' c. (n, t') \<in> set xs \<and> templatesFS E t' = Inr c \<and> files s' (Join dir n) = Some c"
  using assms
proof (induction xs arbitrary: s t)
  case Nil
  then show ?case by simp
next
  case (Cons x xs)
  obtain n0 t0 where x: "x = (n0, t0)" by (cases x)
  from Cons.prems(1) x obtain c0 s1 where
    load: "templatesFS E t0 = Inr c0"
    and wr: "os_WriteFile E (Join dir n0) c0 s = (None, s1)"
    and rest: "write_templates E dir xs s1 = (None, s')"
    by (auto simp: loadEmbeddedTemplate_def split: sum.splits option.splits prod.splits)
  show ?case
  proof (cases "n \<in> fst ` set xs")
    case True
    then obtain t1 where "(n, t1) \<in> set xs" by auto
    from Cons.IH [OF rest this] show ?thesis by auto
  next
    case False
    then have "(n, t) \<notin> set xs" by (metis fst_conv image_eqI)
    with Cons.prems(2) x have n: "n = n0" by simp
    have "inj (Join dir)"
      by (simp add: inj_def Join_same)
    with False have "Join dir n \<notin> Join dir ` fst ` set xs"
      by (simp add: inj_image_mem_iff)
    from write_templates_frame [OF rest this] wr
    have "files s' (Join dir n) = Some c0"
      by (auto simp: os_WriteFile_def n split: option.splits prod.splits)
    with load x n show ?thesis by auto
  qed
qed

lemma updateGlobalConfig_dirs:
  "updateGlobalConfig E p v s = (r, s') \<Longrightarrow> dirs s \<subseteq> dirs s'"
  by (auto simp: updateGlobalConfig_def os_MkdirAll_def os_WriteFile_def store_config_def Let_def
      split: sum.splits option.splits prod.splits if_splits)

lemma generateVault_success:
  assumes "generateVault E vaultPath s = (None, s')" and "Abs E vaultPath = Inr root"
  shows "\<exists>s2 s3 s4 v.
           files s2 = files s
         \<and> root \<in> dirs s2 \<and> Join root ''.obsidian'' \<in> dirs s2
         \<and> createObsidianFiles E (Join root ''.obsidian'') s2 = (None, s3)
         \<and> createInitialFiles E root s3 = (None, s4)
         \<and> updateGlobalConfig E root v s4 = (None, s')"
proof -
  from assms obtain s1 s2 v s3 s4 where
    m1: "os_MkdirAll E root s = (None, s1)"
    and m2: "os_MkdirAll E (Join root ''.obsidian'') s1 = (None, s2)"
    and rest: "createObsidianFiles E (Join root ''.obsidian'') s2 = (None, s3)"
      "createInitialFiles E root s3 = (None, s4)"
      "updateGlobalConfig E root v s4 = (None, s')"
    by (auto simp: generateVault_def Let_def split: sum.splits option.splits prod.splits)
  from m1 m2 have "files s2 = files s \<and> root \<in> dirs s2 \<and> Join root ''.obsidian'' \<in> dirs s2"
    by (auto simp: os_MkdirAll_def split: option.splits prod.splits)
  with rest show ?thesis by blast
qed


lemma obsidian_names:
  "fst ` set obsidian_templateFiles = config_documents"
  "(n, t) \<in> set obsidian_templateFiles \<Longrightarrow> t = ''templates/'' @ n"
  by (auto simp: obsidian_templateFiles_def config_documents_def)

lemma initial_names:
  "fst ` set initial_templateFiles = {''Welcome.md''}"
  "(n, t) \<in> set initial_templateFiles \<Longrightarrow> t = ''templates/'' @ n"
  by (auto simp: initial_templateFiles_def)

lemma config_documents_no_slash: "n \<in> config_documents \<Longrightarrow> CHR ''/'' \<notin> set n"
  by (auto simp: config_documents_def)

lemma Welcome_apart:
  assumes "n \<in> config_documents"
  shows "Join root ''Welcome.md'' \<noteq> Join (Join root ''.obsidian'') n"
proof
  assume eq: "Join root ''Welcome.md'' = Join (Join root ''.obsidian'') n"
  have "CHR ''/'' \<notin> set ''Welcome.md''" by simp
  from Join_inject [OF this config_documents_no_slash [OF assms]] eq
  have "root = Join root ''.obsidian''" by blast
  then show False using Join_not_self [of root "''.obsidian''"] by simp
qed

text \<open>The files after the six writes of the two loops, before the registry is written.\<close>

lemma vault_files_before_registry:
  assumes c1: "createObsidianFiles E (Join root ''.obsidian'') s2 = (None, s3)"
    and c2: "createInitialFiles E root s3 = (None, s4)"
    and o1: "set (range_order E obsidian_templateFiles) = set obsidian_templateFiles"
    and o2: "set (range_order E initial_templateFiles) = set initial_templateFiles"
  shows "\<forall>n \<in> config_documents.
           \<exists>c. templatesFS E (''templates/'' @ n) = Inr c
              \<and> files s4 (Join (Join root ''.obsidian'') n) = Some c"
    and "\<exists>c. templatesFS E ''templates/Welcome.md'' = Inr c
              \<and> files s4 (Join root ''Welcome.md'') = Some c"
    and "\<forall>p. p \<noteq> Join root ''Welcome.md''
            \<and> p \<notin> Join (Join root ''.obsidian'') ` config_documents
          \<longrightarrow> files s4 p = files s2 p"
    and "dirs s4 = dirs s2"
proof -
  let ?obs = "Join root ''.obsidian''"
  let ?xs1 = "range_order E obsidian_templateFiles"
  let ?xs2 = "range_order E initial_templateFiles"
  from c1 have w1: "write_templates E ?obs ?xs1 s2 = (None, s3)"
    by (simp add: createObsidianFiles_def)
  from c2 have w2: "write_templates E root ?xs2 s3 = (None, s4)"
    by (simp add: createInitialFiles_def)
  have f1: "fst ` set ?xs1 = config_documents"
    by (simp only: o1 obsidian_names(1))
  have f2: "fst ` set ?xs2 = {''Welcome.md''}"
    by (simp only: o2 initial_names(1))
  show "\<forall>n \<in> config_documents. \<exists>c. templatesFS E (''templates/'' @ n) = Inr c
              \<and> files s4 (Join ?obs n) = Some c"
  proof
    fix n assume n: "n \<in> config_documents"
    with f1 have "n \<in> fst ` set ?xs1" by (simp only:)
    then obtain t where "(n, t) \<in> set ?xs1" by force
    from write_templates_content [OF w1 this] obtain t' c where
      t': "(n, t') \<in> set ?xs1" and c: "templatesFS E t' = Inr c"
      and f: "files s3 (Join ?obs n) = Some c"
      by blast
    from t' have "(n, t') \<in> set obsidian_templateFiles" by (simp only: o1)
    then have t: "t' = ''templates/'' @ n" by (rule obsidian_names(2))
    have "Join ?obs n \<noteq> Join root ''Welcome.md''"
      using Welcome_apart [OF n, of root] by (rule not_sym)
    then have "Join ?obs n \<notin> Join root ` fst ` set ?xs2"
      by (simp add: f2)
    from write_templates_frame [OF w2 this] f
    have "files s4 (Join ?obs n) = Some c" by (simp only:)
    with c t show "\<exists>c. templatesFS E (''templates/'' @ n) = Inr c
              \<and> files s4 (Join ?obs n) = Some c"
      by blast
  qed
  show "\<exists>c. templatesFS E ''templates/Welcome.md'' = Inr c
              \<and> files s4 (Join root ''Welcome.md'') = Some c"
  proof -
    have "''Welcome.md'' \<in> fst ` set ?xs2" by (simp only: f2 insertI1)
    then obtain t where "(''Welcome.md'', t) \<in> set ?xs2" by force
    from write_templates_content [OF w2 this] obtain t' c where
      t': "(''Welcome.md'', t') \<in> set ?xs2" and c: "templatesFS E t' = Inr c"
      and f: "files s4 (Join root ''Welcome.md'') = Some c"
      by blast
    from t' have "(''Welcome.md'', t') \<in> set initial_templateFiles" by (simp only: o2)
    then have "t' = ''templates/'' @ ''Welcome.md''" by (rule initial_names(2))
    then have "t' = ''templates/Welcome.md''" by simp
    with c f show ?thesis by blast
  qed
  show "\<forall>p. p \<noteq> Join root ''Welcome.md'' \<and> p \<notin> Join ?obs ` config_documents
          \<longrightarrow> files s4 p = files s2 p"
  proof (intro allI impI)
    fix p assume p: "p \<noteq> Join root ''Welcome.md'' \<and> p \<notin> Join ?obs ` config_documents"
    then have "p \<notin> Join root ` fst ` set ?xs2"
      by (simp add: f2)
    moreover from p have "p \<notin> Join ?obs ` fst ` set ?xs1"
      by (simp add: f1)
    ultimately show "files s4 p = files s2 p"
      using write_templates_frame [OF w2, of p] write_templates_frame [OF w1, of p] by simp
  qed
  show "dirs s4 = dirs s2"
    using write_templates_dirs [OF w1] write_templates_dirs [OF w2] by (simp only:)
qed


lemma registry_apart:
  "obsidianConfigPath configDir \<noteq> Join root ''Welcome.md''"
  "n \<in> config_documents \<Longrightarrow> obsidianConfigPath configDir \<noteq> Join d n"
  "CHR ''/'' \<notin> set m \<Longrightarrow> obsidianConfigPath configDir \<noteq> Join (Join root ''.obsidian'') m"
  "CHR ''/'' \<notin> set m \<Longrightarrow>
     obsidianConfigPath configDir = Join root m
       \<longleftrightarrow> root = Join configDir ''obsidian'' \<and> m = ''obsidian.json''"
proof -
  have j: "CHR ''/'' \<notin> set ''obsidian.json''" by simp
  show "obsidianConfigPath configDir \<noteq> Join root ''Welcome.md''"
    unfolding obsidianConfigPath_def using Join_inject [OF j, of "''Welcome.md''"] by simp
  show "obsidianConfigPath configDir \<noteq> Join d n" if "n \<in> config_documents"
  proof
    assume "obsidianConfigPath configDir = Join d n"
    with Join_inject [OF j config_documents_no_slash [OF that]]
    have "n = ''obsidian.json''" by (simp add: obsidianConfigPath_def)
    with that show False by (simp add: config_documents_def)
  qed
  show "obsidianConfigPath configDir = Join root m
       \<longleftrightarrow> root = Join configDir ''obsidian'' \<and> m = ''obsidian.json''"
    if "CHR ''/'' \<notin> set m"
    unfolding obsidianConfigPath_def using Join_inject [OF j that] by auto
  show "obsidianConfigPath configDir \<noteq> Join (Join root ''.obsidian'') m"
    if "CHR ''/'' \<notin> set m"
  proof
    assume "obsidianConfigPath configDir = Join (Join root ''.obsidian'') m"
    with Join_inject [OF j that]
    have "Join configDir ''obsidian'' = Join root ''.obsidian''"
      by (simp add: obsidianConfigPath_def)
    moreover have "CHR ''/'' \<notin> set ''obsidian''" "CHR ''/'' \<notin> set ''.obsidian''"
      by simp_all
    ultimately have "''obsidian'' = ''.obsidian''"
      using Join_inject by blast
    then show False by simp
  qed
qed

lemma vault_dirs_apart:
  "Join (Join root ''.obsidian'') n \<noteq> Join root ''Welcome.md''" if "CHR ''/'' \<notin> set n"
proof
  assume "Join (Join root ''.obsidian'') n = Join root ''Welcome.md''"
  moreover have "CHR ''/'' \<notin> set ''Welcome.md''" by simp
  ultimately have "Join root ''.obsidian'' = root"
    using Join_inject [OF that] by blast
  then show False by (simp add: Join_not_self)
qed

lemma root_not_config:
  "Join root m \<notin> Join (Join root ''.obsidian'') ` config_documents" if "CHR ''/'' \<notin> set m"
proof
  assume "Join root m \<in> Join (Join root ''.obsidian'') ` config_documents"
  then obtain n where n: "n \<in> config_documents" and "Join root m = Join (Join root ''.obsidian'') n"
    by blast
  with Join_inject [OF that config_documents_no_slash [OF n]]
  have "root = Join root ''.obsidian''" by blast
  then show False using Join_not_self [of root "''.obsidian''"] by simp
qed


text \<open>
  C5, as amended. A successful \<open>generateVault\<close> leaves \<open>Welcome.md\<close> in the root
  directory and the five configuration documents in the \<open>.obsidian\<close> directory, each
  with the bytes of its template, and both directories exist. These are the files it
  adds: the configuration directory holds the files it held before and the five
  documents; the root directory holds the files it held before and \<open>Welcome.md\<close>, and
  also \<open>obsidian.json\<close> when the root is the directory of the registry. The hypotheses
  say that the \<open>range\<close> over each map visits the entries of that map.
\<close>

theorem vault_files_written:
  assumes ok: "generateVault E vaultPath s = (None, s')"
    and ab: "Abs E vaultPath = Inr root"
    and cd: "UserConfigDirectory E = Inr configDir"
    and o1: "set (range_order E obsidian_templateFiles) = set obsidian_templateFiles"
    and o2: "set (range_order E initial_templateFiles) = set initial_templateFiles"
  shows "(\<exists>c. templatesFS E ''templates/Welcome.md'' = Inr c
            \<and> files s' (Join root ''Welcome.md'') = Some c)
       \<and> (\<forall>n \<in> config_documents.
            \<exists>c. templatesFS E (''templates/'' @ n) = Inr c
               \<and> files s' (Join (Join root ''.obsidian'') n) = Some c)
       \<and> root \<in> dirs s' \<and> Join root ''.obsidian'' \<in> dirs s'
       \<and> dir_files s' (Join root ''.obsidian'')
            = dir_files s (Join root ''.obsidian'') \<union> config_documents
       \<and> dir_files s' root
            = dir_files s root \<union> {''Welcome.md''}
                \<union> (if root = Join configDir ''obsidian'' then {''obsidian.json''} else {})"
proof -
  let ?obs = "Join root ''.obsidian''"
  let ?reg = "obsidianConfigPath configDir"
  from generateVault_success [OF ok ab] obtain s2 s3 s4 v where
    fs2: "files s2 = files s" and d2: "root \<in> dirs s2" "?obs \<in> dirs s2"
    and c1: "createObsidianFiles E ?obs s2 = (None, s3)"
    and c2: "createInitialFiles E root s3 = (None, s4)"
    and reg: "updateGlobalConfig E root v s4 = (None, s')"
    by blast
  note six = vault_files_before_registry [OF c1 c2 o1 o2]
  from updateGlobalConfig_success [OF reg cd] obtain out where
    fl: "files s' = (files s4)(?reg \<mapsto> out)"
    by blast
  have rest_same: "files s' p = files s4 p" if "p \<noteq> ?reg" for p
    using that by (simp add: fl)
  have wfile: "\<exists>c. templatesFS E ''templates/Welcome.md'' = Inr c
            \<and> files s' (Join root ''Welcome.md'') = Some c"
    using six(2) rest_same [OF registry_apart(1) [THEN not_sym]] by simp
  have cfiles: "\<exists>c. templatesFS E (''templates/'' @ n) = Inr c \<and> files s' (Join ?obs n) = Some c"
    if "n \<in> config_documents" for n
    using six(1) that rest_same [OF registry_apart(2) [OF that, THEN not_sym]] by simp
  have dd: "root \<in> dirs s' \<and> ?obs \<in> dirs s'"
    using d2 six(4) updateGlobalConfig_dirs [OF reg] by auto
  have kept: "files s4 p = files s p"
    if "p \<noteq> Join root ''Welcome.md''" "p \<notin> Join ?obs ` config_documents" for p
    using six(3) that fs2 by simp
  have obs_files: "files s' (Join ?obs n) \<noteq> None
                     \<longleftrightarrow> n \<in> config_documents \<or> files s (Join ?obs n) \<noteq> None"
    if n: "CHR ''/'' \<notin> set n" for n
  proof (cases "n \<in> config_documents")
    case True
    with cfiles [OF True] show ?thesis by auto
  next
    case False
    then have "Join ?obs n \<notin> Join ?obs ` config_documents"
      by (auto simp: Join_same)
    from kept [OF vault_dirs_apart [OF n] this]
      rest_same [OF registry_apart(3) [OF n, THEN not_sym]] False
    show ?thesis by simp
  qed
  have root_files: "files s' (Join root n) \<noteq> None
                     \<longleftrightarrow> files s (Join root n) \<noteq> None \<or> n = ''Welcome.md''
                          \<or> (root = Join configDir ''obsidian'' \<and> n = ''obsidian.json'')"
    if n: "CHR ''/'' \<notin> set n" for n
  proof (cases "?reg = Join root n")
    case True
    then have "files s' (Join root n) = Some out" by (simp add: fl)
    with True registry_apart(4) [OF n] show ?thesis by simp
  next
    case False
    then have neq: "Join root n \<noteq> ?reg" by (rule not_sym)
    from False registry_apart(4) [OF n]
    have nr: "\<not> (root = Join configDir ''obsidian'' \<and> n = ''obsidian.json'')" by simp
    show ?thesis
    proof (cases "n = ''Welcome.md''")
      case True
      with wfile show ?thesis by auto
    next
      case False
      then have "Join root n \<noteq> Join root ''Welcome.md''"
        by (simp add: Join_same)
      from kept [OF this root_not_config [OF n]] rest_same [OF neq] False nr
      show ?thesis by auto
    qed
  qed
  have l1: "dir_files s' ?obs = dir_files s ?obs \<union> config_documents"
    using obs_files config_documents_no_slash by (auto simp: dir_files_def)
  have l2: "dir_files s' root
            = dir_files s root \<union> {''Welcome.md''}
                \<union> (if root = Join configDir ''obsidian'' then {''obsidian.json''} else {})"
    using root_files by (auto simp: dir_files_def)
  from wfile cfiles dd l1 l2 show ?thesis by blast
qed

end
